theory Spec2Isabelle
  imports Main "HOL-Library.Sublist"
begin

section \<open>JavaScript strings and the regular expressions of codehelp.ts\<close>

text \<open>
  A JavaScript string is a sequence of UTF-16 code units. It is modelled as a
  \<open>string\<close>, one \<open>char\<close> per code unit, so \<open>length\<close> is the
  \<open>.length\<close> of the source; code units above 0xFF are outside the model.
\<close>

abbreviation (input) CR :: char where "CR \<equiv> CHR 0x0D"
abbreviation (input) LF :: char where "LF \<equiv> CHR 0x0A"
abbreviation (input) backtick :: char where "backtick \<equiv> CHR 0x60"
abbreviation (input) apostrophe :: char where "apostrophe \<equiv> CHR 0x27"

text \<open>\<open>xs.join(sep)\<close> on an array of strings.\<close>

fun join :: "string \<Rightarrow> string list \<Rightarrow> string" where
  "join sep [] = []"
| "join sep [x] = x"
| "join sep (x # y # ys) = x @ sep @ join sep (y # ys)"

text \<open>\<open>s.indexOf(t)\<close>: the first index where \<open>t\<close> occurs in \<open>s\<close>, or -1.\<close>

fun indexOf_from :: "string \<Rightarrow> string \<Rightarrow> nat \<Rightarrow> int" where
  "indexOf_from [] t i = (if t = [] then int i else - 1)"
| "indexOf_from (c # cs) t i =
     (if take (length t) (c # cs) = t then int i else indexOf_from cs t (Suc i))"

definition indexOf :: "string \<Rightarrow> string \<Rightarrow> int" where
  "indexOf s t = indexOf_from s t 0"

text \<open>\<open>k.startsWith(w)\<close>.\<close>

definition startsWith :: "string \<Rightarrow> string \<Rightarrow> bool" where
  "startsWith k w = (take (length w) k = w)"

text \<open>\<open>s.substr(start, len)\<close> for non-negative arguments.\<close>

definition substr :: "string \<Rightarrow> nat \<Rightarrow> nat \<Rightarrow> string" where
  "substr s start len = take len (drop start s)"

text \<open>\<open>s.charAt(i)\<close>: the one-character string at \<open>i\<close>, the empty string out of range.\<close>

definition charAt :: "string \<Rightarrow> nat \<Rightarrow> string" where
  "charAt s i = (if i < length s then [s ! i] else [])"

text \<open>
  The character classes. \<open>\s\<close> is the white space of ECMAScript below 0x100: tab, line
  feed, vertical tab, form feed, carriage return, space and the no-break space. The dot of a
  regular expression matches everything but a line terminator.
\<close>

definition is_space :: "char \<Rightarrow> bool" where
  "is_space c = (c \<in> set [CHR 0x09, CHR 0x0A, CHR 0x0B, CHR 0x0C, CHR 0x0D, CHR 0x20, CHR 0xA0])"

definition is_line_terminator :: "char \<Rightarrow> bool" where
  "is_line_terminator c = (c = LF \<or> c = CR)"

text \<open>
  \<open>/^[0-9a-z_]$/i\<close> and \<open>/^[0-9a-z_']$/i\<close>, matched against the result of
  \<open>charAt\<close>: the string must be exactly one character of the class. Without the
  \<open>u\<close> flag, \<open>i\<close> adds the upper-case letters and nothing else.
\<close>

definition is_word_char :: "char \<Rightarrow> bool" where
  "is_word_char c =
     (c \<in> set ''0123456789abcdefghijklmnopqrstuvwxyzABCDEFGHIJKLMNOPQRSTUVWXYZ_'')"

definition is_word_char_right :: "char \<Rightarrow> bool" where
  "is_word_char_right c = (is_word_char c \<or> c = apostrophe)"

fun match_left :: "string \<Rightarrow> bool" where
  "match_left [c] = is_word_char c"
| "match_left s = False"

fun match_right :: "string \<Rightarrow> bool" where
  "match_right [c] = is_word_char_right c"
| "match_right s = False"

text \<open>
  \<open>s.replace(/R$/, '')\<close> for a regular expression that ends in \<open>$\<close> (no
  \<open>m\<close> flag): a match runs to the end of the input, and the first match is the one
  that starts leftmost. \<open>P\<close> is the language of \<open>R\<close>; the replacement is empty, so
  the result is what stands before the leftmost suffix in \<open>P\<close>, or \<open>s\<close> itself
  when no suffix matches.
\<close>

fun strip_to_end :: "(string \<Rightarrow> bool) \<Rightarrow> string \<Rightarrow> string" where
  "strip_to_end P [] = []"
| "strip_to_end P (c # cs) = (if P (c # cs) then [] else c # strip_to_end P cs)"

text \<open>\<open>--.*\<close>: the marker, then no line terminator.\<close>

definition re_comment :: "string \<Rightarrow> bool" where
  "re_comment s = (take 2 s = ''--'' \<and> list_all (\<lambda>c. \<not> is_line_terminator c) (drop 2 s))"

text \<open>\<open>\s+\<close>: one or more white space characters.\<close>

definition re_spaces :: "string \<Rightarrow> bool" where
  "re_spaces s = (s \<noteq> [] \<and> list_all is_space s)"

text \<open>
  \<open>(\s*\r?\n)*\<close>: every repetition is white space that ends in a line feed, so the
  language is the empty string and the white space strings that end in a line feed.
\<close>

definition re_blank_lines :: "string \<Rightarrow> bool" where
  "re_blank_lines s = (s = [] \<or> (list_all is_space s \<and> last s = LF))"

text \<open>\<open>s.replace(/\r?\n/g, "\r\n")\<close>, scanning from the left.\<close>

fun crlf :: "string \<Rightarrow> string" where
  "crlf [] = []"
| "crlf [c] = (if c = LF then [CR, LF] else [c])"
| "crlf (c # d # cs) =
     (if c = CR \<and> d = LF then CR # LF # crlf cs
      else if c = LF then CR # LF # crlf (d # cs)
      else c # crlf (d # cs))"

section \<open>The data model\<close>

datatype CodeHelpDetailLevel = OFF | MINIMUM | NO_EXAMPLES_NO_LINKS | FULL

datatype SonicPiTypeDescription =
  UNKNOWN | ANY | RATIONAL_PATTERN | CONTROL_PATTERN | TIME_PATTERN

text \<open>\<open>SonicPiTypeDescription[t]\<close>: the reverse mapping of the numeric enum.\<close>

fun type_name :: "SonicPiTypeDescription \<Rightarrow> string" where
  "type_name UNKNOWN = ''UNKNOWN''"
| "type_name ANY = ''ANY''"
| "type_name RATIONAL_PATTERN = ''RATIONAL_PATTERN''"
| "type_name CONTROL_PATTERN = ''CONTROL_PATTERN''"
| "type_name TIME_PATTERN = ''TIME_PATTERN''"

text \<open>
  The host's \<open>MarkdownString\<close>: its text and the trust flag, which is unset
  (\<open>False\<close>) after \<open>new MarkdownString(s)\<close>.
\<close>

record MarkdownString =
  md_value :: string
  isTrusted :: bool

definition new_MarkdownString :: "string \<Rightarrow> MarkdownString" where
  "new_MarkdownString s = \<lparr>md_value = s, isTrusted = False\<rparr>"

definition trusted :: "MarkdownString \<Rightarrow> MarkdownString" where
  "trusted m = m\<lparr>isTrusted := True\<rparr>"

definition appendMarkdown :: "MarkdownString \<Rightarrow> string \<Rightarrow> MarkdownString" where
  "appendMarkdown ms s = ms\<lparr>md_value := md_value ms @ s\<rparr>"

text \<open>
  \<open>SonicPiParameterDescription\<close>: \<open>editable\<close> and \<open>type\<close> are optional
  constructor arguments, \<open>None\<close> when left out.
\<close>

record SonicPiParameterDescription =
  pname :: string
  phelp :: MarkdownString
  editable :: "bool option"
  ptype :: "SonicPiTypeDescription option"

text \<open>
  \<open>SonicPiCommandDescription\<close>. The fields that the class declares as possibly
  \<open>undefined\<close> are options.
\<close>

record SonicPiCommandDescription =
  command :: string
  formattedCommand :: "MarkdownString list"
  parameters :: "SonicPiParameterDescription list option"
  returns :: "MarkdownString option"
  chelp :: "MarkdownString option"
  examples :: "MarkdownString list option"

text \<open>
  The constructor's argument. A text is a string or a \<open>MarkdownString\<close>; the signature
  and the examples are one text or an array of texts.
\<close>

datatype text_in = Str string | Md MarkdownString

datatype 'a one_or_many = One 'a | Many "'a list"

record config =
  cfg_command :: string
  cfg_formattedCommand :: "text_in one_or_many option"
  cfg_parameters :: "SonicPiParameterDescription list option"
  cfg_returns :: "string option"
  cfg_help :: "text_in option"
  cfg_examples :: "text_in one_or_many option"

text \<open>Lines 60-70: the parameters, with \<open>editable\<close> defaulted to \<open>false\<close>.\<close>

definition default_editable :: "SonicPiParameterDescription \<Rightarrow> SonicPiParameterDescription" where
  "default_editable parm =
     parm\<lparr>editable := Some (case editable parm of None \<Rightarrow> False | Some b \<Rightarrow> b)\<rparr>"

text \<open>Lines 71-78: the signature that is synthesized when none is supplied.\<close>

definition synthesized :: "string \<Rightarrow> SonicPiParameterDescription list option \<Rightarrow> string" where
  "synthesized cmd ps =
     (case ps of
        None \<Rightarrow> cmd @ '' ?''
      | Some qs \<Rightarrow> cmd @ '' '' @ join '' '' (map pname (map default_editable qs)))"

text \<open>
  Lines 85-89: a string signature is indented by four spaces, unless it holds a backtick
  and starts with four spaces already.
\<close>

definition indent_cmd :: "string \<Rightarrow> string" where
  "indent_cmd cmd =
     (if indexOf cmd [backtick] < 0 \<or> indexOf cmd ''    '' \<noteq> 0 then ''    '' @ cmd else cmd)"

fun signature_block :: "text_in \<Rightarrow> MarkdownString" where
  "signature_block (Str cmd) = new_MarkdownString (indent_cmd cmd)"
| "signature_block (Md m) = m"

fun as_array :: "'a one_or_many \<Rightarrow> 'a list" where
  "as_array (One x) = [x]"
| "as_array (Many xs) = xs"

text \<open>Lines 122-132: a string of an examples array becomes a fenced block.\<close>

definition fence :: "string \<Rightarrow> string" where
  "fence x = ''~~~'' @ [LF] @ crlf (strip_to_end re_blank_lines x) @ [LF] @ ''~~~'' @ [LF]"

fun example_block :: "text_in \<Rightarrow> MarkdownString" where
  "example_block (Str x) = new_MarkdownString (fence x)"
| "example_block (Md m) = m"

fun examples_of :: "text_in one_or_many option \<Rightarrow> MarkdownString list" where
  "examples_of None = []"
| "examples_of (Some (One (Str s))) = [new_MarkdownString s]"
| "examples_of (Some (Many xs)) = map example_block xs"
| "examples_of (Some (One (Md m))) = [m]"

fun text_block :: "text_in \<Rightarrow> MarkdownString" where
  "text_block (Str s) = new_MarkdownString s"
| "text_block (Md m) = m"

text \<open>The constructor of \<open>SonicPiCommandDescription\<close>.\<close>

definition new_SonicPiCommandDescription :: "config \<Rightarrow> SonicPiCommandDescription" where
  "new_SonicPiCommandDescription cfg =
     (let this_parameters =
            (case cfg_parameters cfg of None \<Rightarrow> [] | Some ps \<Rightarrow> map default_editable ps);
          formatted =
            (case cfg_formattedCommand cfg of
               None \<Rightarrow> One (Str (synthesized (cfg_command cfg) (cfg_parameters cfg)))
             | Some f \<Rightarrow> f)
      in \<lparr>command = cfg_command cfg,
          formattedCommand = map trusted (map signature_block (as_array formatted)),
          parameters = Some (map (\<lambda>p. p\<lparr>phelp := trusted (phelp p)\<rparr>) this_parameters),
          returns = map_option (\<lambda>r. trusted (new_MarkdownString r)) (cfg_returns cfg),
          chelp = map_option (\<lambda>h. trusted (text_block h)) (cfg_help cfg),
          examples = Some (map trusted (examples_of (cfg_examples cfg)))\<rparr>)"

section \<open>The formatter\<close>

definition hline :: string where
  "hline = [CR, LF] @ ''- - -'' @ [CR, LF, CR, LF]"

text \<open>Lines 165-168: one parameter of the parameter section.\<close>

definition param_line :: "SonicPiParameterDescription \<Rightarrow> string" where
  "param_line x =
     [backtick] @ pname x @ [backtick] @ '' ''
     @ (case ptype x of Some t \<Rightarrow> [backtick] @ type_name t @ [backtick] | None \<Rightarrow> [])
     @ '' '' @ md_value (phelp x)"

definition signature_text :: "SonicPiCommandDescription \<Rightarrow> bool \<Rightarrow> string" where
  "signature_text d withCommand =
     (if withCommand then join (''    '' @ [LF]) (map md_value (formattedCommand d)) else [])"

definition help_text :: "SonicPiCommandDescription \<Rightarrow> string \<Rightarrow> string" where
  "help_text d before =
     (case chelp d of
        None \<Rightarrow> []
      | Some h \<Rightarrow> (if length before > 0 then hline else []) @ md_value h)"

definition parameters_text :: "SonicPiCommandDescription \<Rightarrow> string" where
  "parameters_text d =
     (case parameters d of
        None \<Rightarrow> []
      | Some ps \<Rightarrow>
          if length ps = 0 then []
          else hline @ join (''    '' @ [CR, LF]) (map param_line ps))"

definition returns_text :: "SonicPiCommandDescription \<Rightarrow> string" where
  "returns_text d =
     (case returns d of
        None \<Rightarrow> []
      | Some r \<Rightarrow> [CR, LF, CR, LF] @ ''Returns: '' @ md_value r)"

definition examples_text :: "MarkdownString list \<Rightarrow> string" where
  "examples_text es =
     (if length es = 0 then []
      else hline @ ''Examples:'' @ [CR, LF, CR, LF]
           @ join (''    '' @ [CR, LF]) (map md_value es))"

text \<open>\<open>format(detailLevel, withCommand)\<close>; \<open>None\<close> is \<open>undefined\<close>.\<close>

definition format :: "SonicPiCommandDescription \<Rightarrow> CodeHelpDetailLevel \<Rightarrow> bool
    \<Rightarrow> MarkdownString option" where
  "format d detailLevel withCommand =
     (if detailLevel = OFF then None
      else
        let ms0 = \<lparr>md_value = [], isTrusted = True\<rparr>;
            ms1 = appendMarkdown ms0 (signature_text d withCommand)
        in if detailLevel = MINIMUM then Some ms1
           else
             let ms2 = appendMarkdown ms1 (help_text d (md_value ms1));
                 ms3 = appendMarkdown ms2 (parameters_text d);
                 ms4 = appendMarkdown ms3 (returns_text d)
             in if detailLevel = NO_EXAMPLES_NO_LINKS then Some ms4
                else
                  (case examples d of
                     None \<Rightarrow> Some ms4
                   | Some es \<Rightarrow> Some (appendMarkdown ms4 (examples_text es))))"

section \<open>The definition parser\<close>

text \<open>
  The decoded YAML tree: null, booleans, numbers, strings, sequences and mappings. The
  parser looks at a number only through \<open>typeof\<close> and string concatenation, so a number
  is carried as the string that \<open>String(n)\<close> gives. A mapping is the list of its own
  properties in the order \<open>Object.entries\<close> enumerates them.
\<close>

datatype yaml =
  YNull | YBool bool | YNum string | YStr string | YSeq "yaml list" | YMap "(string \<times> yaml) list"

datatype js_error = TypeError | Error string

definition bind_res :: "'e + 'a \<Rightarrow> ('a \<Rightarrow> 'e + 'b) \<Rightarrow> 'e + 'b" where
  "bind_res m f = (case m of Inl e \<Rightarrow> Inl e | Inr x \<Rightarrow> f x)"

text \<open>\<open>xs.map(f)\<close> and a loop over \<open>xs\<close> that updates local variables, where
  \<open>f\<close> may throw: the first exception ends the traversal.\<close>

fun map_res :: "('a \<Rightarrow> 'e + 'b) \<Rightarrow> 'a list \<Rightarrow> 'e + 'b list" where
  "map_res f [] = Inr []"
| "map_res f (x # xs) = bind_res (f x) (\<lambda>y. bind_res (map_res f xs) (\<lambda>ys. Inr (y # ys)))"

fun fold_res :: "('a \<Rightarrow> 's \<Rightarrow> 'e + 's) \<Rightarrow> 'a list \<Rightarrow> 's \<Rightarrow> 'e + 's" where
  "fold_res f [] s = Inr s"
| "fold_res f (x # xs) s = bind_res (f x s) (fold_res f xs)"

fun typeof :: "yaml \<Rightarrow> string" where
  "typeof YNull = ''object''"
| "typeof (YBool b) = ''boolean''"
| "typeof (YNum n) = ''number''"
| "typeof (YStr s) = ''string''"
| "typeof (YSeq xs) = ''object''"
| "typeof (YMap kvs) = ''object''"

text \<open>The decimal digits of an array index, the property names of an array.\<close>

definition digit_char :: "nat \<Rightarrow> char" where
  "digit_char n = ''0123456789'' ! (n mod 10)"

function dec :: "nat \<Rightarrow> string" where
  "dec n = (if n < 10 then [digit_char n] else dec (n div 10) @ [digit_char n])"
  by pat_completeness auto
termination
  by (relation "measure (\<lambda>n. n)") auto

declare dec.simps [simp del]

definition indexed :: "'a list \<Rightarrow> (string \<times> 'a) list" where
  "indexed xs = zip (map dec [0 ..< length xs]) xs"

text \<open>
  \<open>Object.entries(v)\<close>: a \<open>TypeError\<close> on null, nothing for a boolean or a number,
  the indexed characters of a string, the indexed elements of an array, the own
  properties of a mapping.
\<close>

fun Object_entries :: "yaml \<Rightarrow> js_error + (string \<times> yaml) list" where
  "Object_entries YNull = Inl TypeError"
| "Object_entries (YBool b) = Inr []"
| "Object_entries (YNum n) = Inr []"
| "Object_entries (YStr s) = Inr (indexed (map (\<lambda>c. YStr [c]) s))"
| "Object_entries (YSeq xs) = Inr (indexed xs)"
| "Object_entries (YMap kvs) = Inr kvs"

text \<open>
  \<open>"" + v\<close>. An array is joined with commas, null elements as the empty string. A
  mapping gives \<open>[object Object]\<close> through the inherited \<open>toString\<close>; an own
  property of that name shadows the method with a value that cannot be called, and the
  conversion throws a \<open>TypeError\<close>.
\<close>

fun to_js_string :: "yaml \<Rightarrow> js_error + string"
  and join_elements :: "yaml list \<Rightarrow> js_error + string" where
  "to_js_string YNull = Inr ''null''"
| "to_js_string (YBool b) = Inr (if b then ''true'' else ''false'')"
| "to_js_string (YNum n) = Inr n"
| "to_js_string (YStr s) = Inr s"
| "to_js_string (YSeq xs) = join_elements xs"
| "to_js_string (YMap kvs) =
     (if ''toString'' \<in> set (map fst kvs) then Inl TypeError else Inr ''[object Object]'')"
| "join_elements [] = Inr []"
| "join_elements (x # xs) =
     bind_res (case x of YNull \<Rightarrow> Inr [] | _ \<Rightarrow> to_js_string x)
       (\<lambda>a. if xs = [] then Inr a
            else bind_res (join_elements xs) (\<lambda>b. Inr (a @ '','' @ b)))"

text \<open>The local variables of one entry of \<open>parseYamlDefinitions\<close> (lines 273-277).\<close>

record descriptor =
  d_parameters :: "SonicPiParameterDescription list option"
  d_examples :: "string list option"
  d_formattedCommand :: "string list"
  d_help :: "string option"
  d_returns :: "string option"

definition empty_descriptor :: descriptor where
  "empty_descriptor =
     \<lparr>d_parameters = None, d_examples = None, d_formattedCommand = [],
      d_help = None, d_returns = None\<rparr>"

text \<open>\<open>value.filter(x => typeof x === 'string')\<close>.\<close>

fun strings_of :: "yaml list \<Rightarrow> string list" where
  "strings_of [] = []"
| "strings_of (YStr s # xs) = s # strings_of xs"
| "strings_of (x # xs) = strings_of xs"

text \<open>Lines 306-316: one parameter, its help coerced to a string.\<close>

definition new_parameter :: "string \<times> yaml \<Rightarrow> js_error + SonicPiParameterDescription" where
  "new_parameter e =
     (case e of (parmName, parmprops) \<Rightarrow>
        bind_res (case parmprops of YStr s \<Rightarrow> Inr s | _ \<Rightarrow> to_js_string parmprops)
          (\<lambda>s. Inr \<lparr>pname = parmName, phelp = new_MarkdownString s,
                    editable = None, ptype = None\<rparr>))"

text \<open>Lines 280-332: one property of a descriptor, branch by branch.\<close>

definition set_formattedCommand :: "yaml \<Rightarrow> descriptor \<Rightarrow> descriptor" where
  "set_formattedCommand v acc =
     (case v of
        YStr s \<Rightarrow> acc\<lparr>d_formattedCommand := [s]\<rparr>
      | YSeq xs \<Rightarrow> acc\<lparr>d_formattedCommand := strings_of xs\<rparr>
      | _ \<Rightarrow> acc)"

definition set_returns :: "yaml \<Rightarrow> descriptor \<Rightarrow> descriptor" where
  "set_returns v acc = (case v of YStr s \<Rightarrow> acc\<lparr>d_returns := Some s\<rparr> | _ \<Rightarrow> acc)"

definition set_help :: "yaml \<Rightarrow> descriptor \<Rightarrow> descriptor" where
  "set_help v acc = (case v of YStr s \<Rightarrow> acc\<lparr>d_help := Some s\<rparr> | _ \<Rightarrow> acc)"

definition set_parameters :: "yaml \<Rightarrow> descriptor \<Rightarrow> js_error + descriptor" where
  "set_parameters v acc =
     (if typeof v = ''object'' \<and> v \<noteq> YNull then
        bind_res (Object_entries v) (\<lambda>es.
        bind_res (map_res new_parameter es) (\<lambda>ps.
          Inr (acc\<lparr>d_parameters := Some ps\<rparr>)))
      else Inr acc)"

definition set_examples :: "yaml \<Rightarrow> descriptor \<Rightarrow> descriptor" where
  "set_examples v acc =
     (case (case v of YStr s \<Rightarrow> YSeq [YStr s] | _ \<Rightarrow> v) of
        YSeq xs \<Rightarrow> acc\<lparr>d_examples := Some (strings_of xs)\<rparr>
      | _ \<Rightarrow> acc)"

definition set_property :: "string \<times> yaml \<Rightarrow> descriptor \<Rightarrow> js_error + descriptor" where
  "set_property e acc =
     (case e of (property, v) \<Rightarrow>
        if property = ''cmd'' \<or> property = ''formattedCommand'' then
          Inr (set_formattedCommand v acc)
        else if property = ''return'' \<or> property = ''returns'' then
          Inr (set_returns v acc)
        else if property = ''help'' \<or> property = ''doc'' then
          Inr (set_help v acc)
        else if property = ''parm'' \<or> property = ''param'' \<or> property = ''params''
                \<or> property = ''parameters'' then
          set_parameters v acc
        else if property = ''example'' \<or> property = ''examples'' then
          Inr (set_examples v acc)
        else Inr acc)"

text \<open>
  Line 341: the constructor call. The signature is always passed, as an array of
  strings; the examples are not passed.
\<close>

definition describe :: "string \<Rightarrow> descriptor \<Rightarrow> SonicPiCommandDescription" where
  "describe cmd acc =
     new_SonicPiCommandDescription
       \<lparr>cfg_command = cmd,
        cfg_formattedCommand = Some (Many (map Str (d_formattedCommand acc))),
        cfg_parameters = d_parameters acc,
        cfg_returns = d_returns acc,
        cfg_help = map_option Str (d_help acc),
        cfg_examples = None\<rparr>"

text \<open>
  Lines 268-342: one top-level entry. The keys that \<open>Object.entries\<close> gives are
  strings, so the three checks of a key's type never throw.
\<close>

definition parse_entry :: "string \<times> yaml \<Rightarrow> js_error + SonicPiCommandDescription" where
  "parse_entry e =
     (case e of (cmd, v) \<Rightarrow>
        if typeof v = ''object'' then
          bind_res (Object_entries (if v = YNull then YMap [] else v)) (\<lambda>props.
          bind_res (fold_res set_property props empty_descriptor) (\<lambda>acc.
            Inr (describe cmd acc)))
        else
          (case v of
             YStr s \<Rightarrow> Inr (describe s empty_descriptor)
           | _ \<Rightarrow> Inl (Error (''Invalid command description value type '' @ typeof v))))"

definition parseYamlDefinitions :: "yaml \<Rightarrow> js_error + SonicPiCommandDescription list" where
  "parseYamlDefinitions ydef = bind_res (Object_entries ydef) (map_res parse_entry)"

section \<open>The word resolver\<close>

text \<open>The host's \<open>Range\<close>; its constructor orders the two positions.\<close>

record Range =
  start_line :: nat
  start_character :: nat
  end_line :: nat
  end_character :: nat

definition new_Range :: "nat \<Rightarrow> nat \<Rightarrow> nat \<Rightarrow> nat \<Rightarrow> Range" where
  "new_Range l1 c1 l2 c2 =
     (if l1 < l2 \<or> (l1 = l2 \<and> c1 \<le> c2)
      then \<lparr>start_line = l1, start_character = c1, end_line = l2, end_character = c2\<rparr>
      else \<lparr>start_line = l2, start_character = c2, end_line = l1, end_character = c1\<rparr>)"

text \<open>Line 346: the line without its comment and its trailing white space.\<close>

definition trimmed :: "string \<Rightarrow> string" where
  "trimmed lineText = strip_to_end re_spaces (strip_to_end re_comment lineText)"

text \<open>
  Lines 350-358. \<open>scan_left line n\<close> is the loop at \<open>i = n - 1\<close>, with
  \<open>startChar = n\<close> so far: it returns \<open>startChar\<close>.
\<close>

fun scan_left :: "string \<Rightarrow> nat \<Rightarrow> nat" where
  "scan_left line 0 = 0"
| "scan_left line (Suc i) = (if match_left (charAt line i) then scan_left line i else Suc i)"

text \<open>Lines 359-368. \<open>scan_right line i\<close> is the loop at \<open>i\<close>: it returns
  \<open>endChar\<close>.\<close>

function scan_right :: "string \<Rightarrow> nat \<Rightarrow> nat" where
  "scan_right line i =
     (if i < length line \<and> match_right (charAt line i) then scan_right line (Suc i) else i)"
  by pat_completeness auto
termination
  by (relation "measure (\<lambda>(line, i). length line - i)") auto

declare scan_right.simps [simp del]

text \<open>
  \<open>getWordAtCursor\<close>, on the text of the line, the line number and the character
  offset of the position.
\<close>

definition getWordAtCursor :: "string \<Rightarrow> nat \<Rightarrow> nat \<Rightarrow> string option \<times> Range option" where
  "getWordAtCursor lineText ln ch =
     (let line = trimmed lineText
      in if ch > length line then (None, None)
         else
           let startChar = scan_left line ch;
               endChar = scan_right line ch
           in (Some (substr line startChar (endChar - startChar)),
               Some (new_Range ln startChar ln endChar)))"

text \<open>
  The preprocessing as the specification words it: the line up to the first occurrence of
  the two-character comment marker, without its trailing white space.
\<close>

fun before_comment :: "string \<Rightarrow> string" where
  "before_comment (c # d # cs) =
     (if c = CHR ''-'' \<and> d = CHR ''-'' then [] else c # before_comment (d # cs))"
| "before_comment cs = cs"

definition spec_trimmed :: "string \<Rightarrow> string" where
  "spec_trimmed lineText = rev (dropWhile is_space (rev (before_comment lineText)))"

section \<open>The registry\<close>

text \<open>
  A plain JavaScript object, as the list of its own properties in the order
  \<open>Object.keys\<close> enumerates them: the array indices in ascending order, then the other
  keys in the order of their creation. The object inherits from \<open>Object.prototype\<close>.
\<close>

type_synonym 'a js_object = "(string \<times> 'a) list"

definition is_digit :: "char \<Rightarrow> bool" where
  "is_digit c = (c \<in> set ''0123456789'')"

definition dec_value :: "string \<Rightarrow> nat" where
  "dec_value k = foldl (\<lambda>n c. 10 * n + (of_char c - 48)) 0 k"

text \<open>An array index: the canonical decimal form of a number below \<open>2^32 - 1 = 4294967295\<close>.\<close>

definition is_array_index :: "string \<Rightarrow> bool" where
  "is_array_index k =
     (k \<noteq> [] \<and> list_all is_digit k \<and> (length k = 1 \<or> hd k \<noteq> CHR ''0'')
      \<and> dec_value k < 4294967295)"

fun obj_insert :: "string \<Rightarrow> 'a \<Rightarrow> 'a js_object \<Rightarrow> 'a js_object" where
  "obj_insert k v [] = [(k, v)]"
| "obj_insert k v (p # ps) =
     (if is_array_index k \<and> (\<not> is_array_index (fst p) \<or> dec_value k < dec_value (fst p))
      then (k, v) # p # ps
      else p # obj_insert k v ps)"

text \<open>
  \<open>o[k] = v\<close>. An own property keeps its place and takes the new value, a new key is
  created. The key \<open>__proto__\<close> is the accessor of \<open>Object.prototype\<close>: the
  assignment sets the prototype when \<open>v\<close> is an object and does nothing otherwise, and
  no own property is created in either case. Nothing modelled here reads a property
  through the prototype that a command description would become.
\<close>

definition obj_set :: "string \<Rightarrow> 'a \<Rightarrow> 'a js_object \<Rightarrow> 'a js_object" where
  "obj_set k v ob =
     (if k = ''__proto__'' then ob
      else if k \<in> set (map fst ob) then map (\<lambda>p. if fst p = k then (k, v) else p) ob
      else obj_insert k v ob)"

text \<open>\<open>delete o[k]\<close>.\<close>

definition obj_delete :: "string \<Rightarrow> 'a js_object \<Rightarrow> 'a js_object" where
  "obj_delete k ob = filter (\<lambda>p. fst p \<noteq> k) ob"

text \<open>The property names that every plain object inherits from \<open>Object.prototype\<close>.\<close>

definition Object_prototype_names :: "string list" where
  "Object_prototype_names =
     [''constructor'', ''__defineGetter__'', ''__defineSetter__'', ''hasOwnProperty'',
      ''__lookupGetter__'', ''__lookupSetter__'', ''isPrototypeOf'',
      ''propertyIsEnumerable'', ''toString'', ''valueOf'', ''__proto__'',
      ''toLocaleString'']"

text \<open>
  \<open>typeof o[x] === 'undefined'\<close> for an object whose own properties all have a value:
  the lookup finds an own property or goes on to the prototype.
\<close>

definition typeof_undefined :: "'a js_object \<Rightarrow> string \<Rightarrow> bool" where
  "typeof_undefined ob x = (x \<notin> set (map fst ob) \<and> x \<notin> set Object_prototype_names)"

text \<open>
  Lines 206-224: the definitions of one pass. Without an argument the default source
  \<open>synth.yaml\<close> is read and decoded; \<open>synth\<close> is the outcome, \<open>None\<close> when
  reading or decoding threw.
\<close>

definition combinedDefinitions ::
    "(string \<times> yaml) option \<Rightarrow> (string \<times> yaml) list option \<Rightarrow> (string \<times> yaml) list" where
  "combinedDefinitions synth yamlCommandDefinitions =
     (case yamlCommandDefinitions of
        None \<Rightarrow> (case synth of None \<Rightarrow> [] | Some d \<Rightarrow> [d])
      | Some ds \<Rightarrow> ds)"

text \<open>Lines 227-241: the parse pass; a source that throws gives no command.\<close>

definition parse_pass :: "(string \<times> yaml) list \<Rightarrow> SonicPiCommandDescription list" where
  "parse_pass defs =
     concat (map (\<lambda>d. case parseYamlDefinitions (snd d) of Inl err \<Rightarrow> [] | Inr cmds \<Rightarrow> cmds) defs)"

text \<open>
  Lines 242-256, on the commands of the parse pass: the registry after \<open>init\<close>. The
  error messages shown to the user are not modelled.
\<close>

definition reload :: "SonicPiCommandDescription js_object \<Rightarrow> SonicPiCommandDescription list
    \<Rightarrow> SonicPiCommandDescription js_object" where
  "reload commandDescriptions cmds =
     (let registry = foldl (\<lambda>r cmd. obj_set (command cmd) cmd r) commandDescriptions cmds;
          newKeys = foldl (\<lambda>x y. obj_set y True x) [] (map command cmds)
      in foldl (\<lambda>r x. obj_delete x r) registry
           (filter (typeof_undefined newKeys) (map fst registry)))"

definition init :: "SonicPiCommandDescription js_object \<Rightarrow> (string \<times> yaml) option
    \<Rightarrow> (string \<times> yaml) list option \<Rightarrow> SonicPiCommandDescription js_object" where
  "init commandDescriptions synth yamlCommandDefinitions =
     reload commandDescriptions (parse_pass (combinedDefinitions synth yamlCommandDefinitions))"

section \<open>Completion\<close>

datatype CompletionItemKind = Snippet

record CompletionItem =
  label :: string
  kind :: "CompletionItemKind option"
  item_range :: "Range option"
  detail :: "string option"
  insertText :: "string option"

text \<open>Lines 386-407: the item of one matching key.\<close>

definition completion_item :: "string \<Rightarrow> SonicPiCommandDescription \<Rightarrow> Range \<Rightarrow> CompletionItem" where
  "completion_item key cdesc rng =
     (case parameters cdesc of
        None \<Rightarrow>
          \<lparr>label = key, kind = Some Snippet, item_range = Some rng,
           detail = Some ''SonicPi code'', insertText = None\<rparr>
      | Some ps \<Rightarrow>
          \<lparr>label = key, kind = Some Snippet, item_range = Some rng,
           detail = Some (join (''    '' @ [LF])
                      (map (\<lambda>x. filter (\<lambda>c. c \<noteq> backtick) (md_value x)) (formattedCommand cdesc))),
           insertText = Some (command cdesc
                      @ join '' '' (map pname (filter (\<lambda>x. editable x = Some True) ps)))\<rparr>)"

text \<open>
  \<open>provideCompletionItems\<close>: the own keys of the registry that start with the word,
  each with its description.
\<close>

definition provideCompletionItems :: "SonicPiCommandDescription js_object \<Rightarrow> string \<Rightarrow> nat \<Rightarrow> nat
    \<Rightarrow> CompletionItem list option" where
  "provideCompletionItems commandDescriptions lineText ln ch =
     (case getWordAtCursor lineText ln ch of
        (Some w, Some rng) \<Rightarrow>
          Some (map (\<lambda>p. completion_item (fst p) (snd p) rng)
                 (filter (\<lambda>p. startsWith (fst p) w) commandDescriptions))
      | _ \<Rightarrow> None)"

section \<open>Predicates and examples for the statements\<close>

text \<open>A parameter as the parser creates it: neither an editable flag nor a type.\<close>

definition plain_parameter :: "SonicPiParameterDescription \<Rightarrow> bool" where
  "plain_parameter p = (editable p = None \<and> ptype p = None)"

definition plain_descriptor :: "descriptor \<Rightarrow> bool" where
  "plain_descriptor acc =
     (case d_parameters acc of None \<Rightarrow> True | Some ps \<Rightarrow> list_all plain_parameter ps)"

text \<open>A description built by the constructor directly, and a definition tree.\<close>

definition example_parameters :: "SonicPiParameterDescription list" where
  "example_parameters =
     [\<lparr>pname = ''note'', phelp = new_MarkdownString ''pitch'',
       editable = Some True, ptype = None\<rparr>,
      \<lparr>pname = ''amp'', phelp = new_MarkdownString ''volume'',
       editable = None, ptype = Some ANY\<rparr>]"

definition example_config :: config where
  "example_config =
     \<lparr>cfg_command = ''play'', cfg_formattedCommand = None,
      cfg_parameters = Some example_parameters,
      cfg_returns = Some ''nothing'', cfg_help = Some (Str ''Plays a note''),
      cfg_examples = Some (Many [Str (''play 60'' @ [LF])])\<rparr>"

definition example_registry :: "SonicPiCommandDescription js_object" where
  "example_registry = [(''play'', new_SonicPiCommandDescription example_config)]"

definition example_item :: CompletionItem where
  "example_item =
     \<lparr>label = ''play'', kind = Some Snippet, item_range = Some (new_Range 0 0 0 2),
      detail = Some ''    play note amp'', insertText = Some ''playnote''\<rparr>"

definition example_ydef :: yaml where
  "example_ydef =
     YMap [(''play'',
            YMap [(''params'', YMap [(''note'', YStr ''pitch''), (''amp'', YNum ''1'')])])]"

definition example_parsed :: SonicPiCommandDescription where
  "example_parsed =
     \<lparr>command = ''play'', formattedCommand = [],
      parameters = Some
        [\<lparr>pname = ''note'', phelp = \<lparr>md_value = ''pitch'', isTrusted = True\<rparr>,
          editable = Some False, ptype = None\<rparr>,
         \<lparr>pname = ''amp'', phelp = \<lparr>md_value = ''1'', isTrusted = True\<rparr>,
          editable = Some False, ptype = None\<rparr>],
      returns = None, chelp = None, examples = Some []\<rparr>"

text \<open>Definition trees for the parser and the reload.\<close>

definition ydef_doc_only :: yaml where
  "ydef_doc_only = YMap [(''play'', YMap [(''doc'', YStr ''Plays a note'')])]"

definition parsed_doc_only :: SonicPiCommandDescription where
  "parsed_doc_only =
     \<lparr>command = ''play'', formattedCommand = [], parameters = Some [], returns = None,
      chelp = Some \<lparr>md_value = ''Plays a note'', isTrusted = True\<rparr>, examples = Some []\<rparr>"

definition ydef_examples :: yaml where
  "ydef_examples =
     YMap [(''play'', YMap [(''cmd'', YStr ''play note''),
                            (''examples'', YSeq [YStr ''play 60'', YStr ''play 72''])])]"

definition parsed_examples :: SonicPiCommandDescription where
  "parsed_examples =
     \<lparr>command = ''play'',
      formattedCommand = [\<lparr>md_value = ''    play note'', isTrusted = True\<rparr>],
      parameters = Some [], returns = None, chelp = None, examples = Some []\<rparr>"

definition ydef_toString :: yaml where
  "ydef_toString = YMap [(''toString'', YMap [(''doc'', YStr ''Converts to a string'')])]"

definition ydef_proto :: yaml where
  "ydef_proto = YMap [(''__proto__'', YMap [])]"

section \<open>The word resolver: the two scans\<close>

lemma strip_to_end_prefix: "prefix (strip_to_end P s) s"
  by (induction s) auto

lemma trimmed_prefix: "prefix (trimmed s) s"
  unfolding trimmed_def
  by (meson prefix_order.trans strip_to_end_prefix)

lemma match_left_charAt [simp]:
  "i < length line \<Longrightarrow> match_left (charAt line i) = is_word_char (line ! i)"
  by (simp add: charAt_def)

lemma match_right_charAt [simp]:
  "i < length line \<Longrightarrow> match_right (charAt line i) = is_word_char_right (line ! i)"
  by (simp add: charAt_def)

lemma scan_left_le: "scan_left line n \<le> n"
  by (induction n) auto

lemma scan_left_word:
  "n \<le> length line \<Longrightarrow> scan_left line n \<le> i \<Longrightarrow> i < n \<Longrightarrow> is_word_char (line ! i)"
proof (induction n)
  case 0
  then show ?case by simp
next
  case (Suc n)
  show ?case
  proof (cases "match_left (charAt line n)")
    case True
    with Suc.prems have w: "is_word_char (line ! n)" by auto
    show ?thesis
    proof (cases "i = n")
      case True
      with w show ?thesis by simp
    next
      case False
      with Suc True show ?thesis by simp
    qed
  next
    case False
    with Suc.prems show ?thesis by simp
  qed
qed

lemma scan_left_stop:
  "n \<le> length line \<Longrightarrow> scan_left line n = 0 \<or> \<not> is_word_char (line ! (scan_left line n - 1))"
  by (induction n) auto

lemma scan_right_step:
  "i < length line \<Longrightarrow> match_right (charAt line i)
   \<Longrightarrow> scan_right line i = scan_right line (Suc i)"
  by (subst scan_right.simps) simp

lemma scan_right_halt:
  "\<not> (i < length line \<and> match_right (charAt line i)) \<Longrightarrow> scan_right line i = i"
  by (subst scan_right.simps) auto

lemma scan_right_ge: "i \<le> scan_right line i"
proof (induction line i rule: scan_right.induct)
  case (1 line i)
  show ?case
  proof (cases "i < length line \<and> match_right (charAt line i)")
    case True
    with 1 have "Suc i \<le> scan_right line (Suc i)" by simp
    with True show ?thesis by (simp add: scan_right_step)
  next
    case False
    then show ?thesis using scan_right_halt [of i line] by simp
  qed
qed

lemma scan_right_le: "i \<le> length line \<Longrightarrow> scan_right line i \<le> length line"
proof (induction line i rule: scan_right.induct)
  case (1 line i)
  show ?case
  proof (cases "i < length line \<and> match_right (charAt line i)")
    case True
    with 1 have "scan_right line (Suc i) \<le> length line" by simp
    with True show ?thesis by (simp add: scan_right_step)
  next
    case False
    with "1.prems" show ?thesis using scan_right_halt [of i line] by simp
  qed
qed

lemma scan_right_word:
  "i \<le> j \<Longrightarrow> j < scan_right line i \<Longrightarrow> is_word_char_right (line ! j)"
proof (induction line i rule: scan_right.induct)
  case (1 line i)
  show ?case
  proof (cases "i < length line \<and> match_right (charAt line i)")
    case True
    then have eq: "scan_right line i = scan_right line (Suc i)"
      by (simp add: scan_right_step)
    from True have w: "is_word_char_right (line ! i)" by auto
    show ?thesis
    proof (cases "j = i")
      case True
      with w show ?thesis by simp
    next
      case False
      with "1.prems" have "Suc i \<le> j" by simp
      moreover from "1.prems" eq have "j < scan_right line (Suc i)" by simp
      ultimately show ?thesis using "1.IH" True by blast
    qed
  next
    case False
    then have "scan_right line i = i" by (rule scan_right_halt)
    with 1 show ?thesis by simp
  qed
qed

lemma scan_right_stop:
  "i \<le> length line \<Longrightarrow>
   scan_right line i = length line \<or> \<not> is_word_char_right (line ! scan_right line i)"
proof (induction line i rule: scan_right.induct)
  case (1 line i)
  show ?case
  proof (cases "i < length line \<and> match_right (charAt line i)")
    case True
    then have eq: "scan_right line i = scan_right line (Suc i)"
      by (simp add: scan_right_step)
    from True have "Suc i \<le> length line" by simp
    with "1.IH" True eq show ?thesis by simp
  next
    case False
    then have eq: "scan_right line i = i" by (rule scan_right_halt)
    show ?thesis
    proof (cases "i < length line")
      case True
      with False have "\<not> is_word_char_right (line ! i)" by simp
      with eq show ?thesis by simp
    next
      case False
      with "1.prems" eq show ?thesis by simp
    qed
  qed
qed

section \<open>The word resolver: result and span\<close>

lemma new_Range_same_line:
  "s \<le> e \<Longrightarrow> new_Range ln s ln e =
     \<lparr>start_line = ln, start_character = s, end_line = ln, end_character = e\<rparr>"
  by (simp add: new_Range_def)

lemma getWordAtCursor_in_bounds:
  assumes "ch \<le> length (trimmed lineText)"
  shows "getWordAtCursor lineText ln ch =
     (Some (substr (trimmed lineText) (scan_left (trimmed lineText) ch)
              (scan_right (trimmed lineText) ch - scan_left (trimmed lineText) ch)),
      Some \<lparr>start_line = ln, start_character = scan_left (trimmed lineText) ch,
             end_line = ln, end_character = scan_right (trimmed lineText) ch\<rparr>)"
proof -
  have "scan_left (trimmed lineText) ch \<le> scan_right (trimmed lineText) ch"
    using scan_left_le [of "trimmed lineText" ch] scan_right_ge [of ch "trimmed lineText"]
    by simp
  with assms show ?thesis
    by (simp add: getWordAtCursor_def Let_def new_Range_same_line)
qed

lemma substr_prefix:
  "prefix t s \<Longrightarrow> a + n \<le> length t \<Longrightarrow> substr t a n = substr s a n"
  by (auto simp: prefix_def substr_def)


text \<open>
  Claim C6. For every line and every cursor offset within the trimmed line (the line without
  its comment and trailing white space, against which the resolver measures the offset), the
  resolver returns the substring from \<open>s\<close> to \<open>e\<close> and the span \<open>[s, e)\<close> on
  the cursor's line, where \<open>s\<close> is the start of the longest run of characters of
  \<open>[0-9a-zA-Z_]\<close> that ends just before the cursor and \<open>e\<close> is the end of the
  longest run of characters of \<open>[0-9a-zA-Z_']\<close> that starts at the cursor. The trimmed
  line is a prefix of the line, so the word is the same substring of the line itself. On
  \<open>play 70 -- comment\<close> offset 4 gives \<open>play\<close> with span \<open>[0,4)\<close> and
  offset 7 gives \<open>70\<close> with span \<open>[5,7)\<close>; on \<open>foo'bar\<close> at offset 3 the
  right scan takes the apostrophe, which the left class does not hold.
\<close>

theorem getWordAtCursor_span:
  "(line = trimmed lineText \<and> ch \<le> length line \<longrightarrow>
     (\<exists>s e. getWordAtCursor lineText ln ch =
               (Some (substr line s (e - s)),
                Some \<lparr>start_line = ln, start_character = s, end_line = ln, end_character = e\<rparr>)
        \<and> substr line s (e - s) = substr lineText s (e - s)
        \<and> s \<le> ch \<and> ch \<le> e \<and> e \<le> length line
        \<and> (\<forall>i. s \<le> i \<and> i < ch \<longrightarrow> is_word_char (line ! i))
        \<and> (s = 0 \<or> \<not> is_word_char (line ! (s - 1)))
        \<and> (\<forall>i. ch \<le> i \<and> i < e \<longrightarrow> is_word_char_right (line ! i))
        \<and> (e = length line \<or> \<not> is_word_char_right (line ! e))))
   \<and> getWordAtCursor ''play 70 -- comment'' ln 4 =
        (Some ''play'',
         Some \<lparr>start_line = ln, start_character = 0, end_line = ln, end_character = 4\<rparr>)
   \<and> getWordAtCursor ''play 70 -- comment'' ln 7 =
        (Some ''70'',
         Some \<lparr>start_line = ln, start_character = 5, end_line = ln, end_character = 7\<rparr>)
   \<and> getWordAtCursor (''foo'' @ [apostrophe] @ ''bar'') ln 3 =
        (Some (''foo'' @ [apostrophe] @ ''bar''),
         Some \<lparr>start_line = ln, start_character = 0, end_line = ln, end_character = 7\<rparr>)
   \<and> is_word_char_right apostrophe \<and> \<not> is_word_char apostrophe"
proof (intro conjI impI)
  assume a: "line = trimmed lineText \<and> ch \<le> length line"
  define s where "s = scan_left line ch"
  define e where "e = scan_right line ch"
  from a have line_eq: "line = trimmed lineText" and ch: "ch \<le> length line" by blast+
  have se: "s \<le> ch" "ch \<le> e" "e \<le> length line"
    using ch by (simp_all add: s_def e_def scan_left_le scan_right_ge scan_right_le)
  have g: "getWordAtCursor lineText ln ch =
      (Some (substr line s (e - s)),
       Some \<lparr>start_line = ln, start_character = s, end_line = ln, end_character = e\<rparr>)"
    using ch getWordAtCursor_in_bounds [of ch lineText ln] unfolding line_eq s_def e_def by simp
  have sub: "substr line s (e - s) = substr lineText s (e - s)"
    using se trimmed_prefix [of lineText] unfolding line_eq by (intro substr_prefix) simp_all
  have l: "\<forall>i. s \<le> i \<and> i < ch \<longrightarrow> is_word_char (line ! i)"
    using ch scan_left_word [of ch line] by (simp add: s_def)
  have ls: "s = 0 \<or> \<not> is_word_char (line ! (s - 1))"
    using ch scan_left_stop [of ch line] by (simp add: s_def)
  have r: "\<forall>i. ch \<le> i \<and> i < e \<longrightarrow> is_word_char_right (line ! i)"
    using scan_right_word [of ch _ line] by (simp add: e_def)
  have rs: "e = length line \<or> \<not> is_word_char_right (line ! e)"
    using ch scan_right_stop [of ch line] by (simp add: e_def)
  from g sub se l ls r rs
  show "\<exists>s e. getWordAtCursor lineText ln ch =
               (Some (substr line s (e - s)),
                Some \<lparr>start_line = ln, start_character = s, end_line = ln, end_character = e\<rparr>)
        \<and> substr line s (e - s) = substr lineText s (e - s)
        \<and> s \<le> ch \<and> ch \<le> e \<and> e \<le> length line
        \<and> (\<forall>i. s \<le> i \<and> i < ch \<longrightarrow> is_word_char (line ! i))
        \<and> (s = 0 \<or> \<not> is_word_char (line ! (s - 1)))
        \<and> (\<forall>i. ch \<le> i \<and> i < e \<longrightarrow> is_word_char_right (line ! i))
        \<and> (e = length line \<or> \<not> is_word_char_right (line ! e))"
    by blast
next
  show "getWordAtCursor ''play 70 -- comment'' ln 4 =
        (Some ''play'',
         Some \<lparr>start_line = ln, start_character = 0, end_line = ln, end_character = 4\<rparr>)"
    by (code_simp, simp)
next
  show "getWordAtCursor ''play 70 -- comment'' ln 7 =
        (Some ''70'',
         Some \<lparr>start_line = ln, start_character = 5, end_line = ln, end_character = 7\<rparr>)"
    by (code_simp, simp)
next
  show "getWordAtCursor (''foo'' @ [apostrophe] @ ''bar'') ln 3 =
        (Some (''foo'' @ [apostrophe] @ ''bar''),
         Some \<lparr>start_line = ln, start_character = 0, end_line = ln, end_character = 7\<rparr>)"
    by (code_simp, simp)
next
  show "is_word_char_right apostrophe" by (simp add: is_word_char_right_def)
next
  show "\<not> is_word_char apostrophe" by (simp add: is_word_char_def)
qed

theorem getWordAtCursor_span_witness:
  "4 \<le> length (trimmed ''play 70 -- comment'')
   \<and> (\<exists>s e. getWordAtCursor ''play 70 -- comment'' 0 4 =
               (Some (substr (trimmed ''play 70 -- comment'') s (e - s)),
                Some \<lparr>start_line = 0, start_character = s, end_line = 0, end_character = e\<rparr>)
        \<and> s \<le> 4 \<and> 4 \<le> e \<and> e \<le> length (trimmed ''play 70 -- comment''))"
proof -
  have h: "4 \<le> length (trimmed ''play 70 -- comment'')" by code_simp
  with getWordAtCursor_span [of "trimmed ''play 70 -- comment''" "''play 70 -- comment''" 4 0]
  show ?thesis by blast
qed

lemma re_spaces_Cons: "re_spaces (c # cs) = (is_space c \<and> list_all is_space cs)"
  by (simp add: re_spaces_def)

lemma strip_spaces_dropWhile: "strip_to_end re_spaces s = rev (dropWhile is_space (rev s))"
proof (induction s)
  case Nil
  then show ?case by simp
next
  case (Cons c cs)
  show ?case
  proof (cases "list_all is_space cs")
    case True
    then have all: "\<forall>x\<in>set (rev cs). is_space x" by (simp add: list_all_iff)
    then have d: "dropWhile is_space (rev cs) = []" by simp
    from all have "dropWhile is_space (rev cs @ [c]) = dropWhile is_space [c]"
      by (intro dropWhile_append2) simp
    with True Cons.IH d show ?thesis by (simp add: re_spaces_Cons)
  next
    case False
    then have "\<exists>x\<in>set (rev cs). \<not> is_space x" by (simp add: list_all_iff)
    then obtain x where "x \<in> set (rev cs)" "\<not> is_space x" by blast
    then have "dropWhile is_space (rev cs @ [c]) = dropWhile is_space (rev cs) @ [c]"
      by (rule dropWhile_append1)
    with False Cons.IH show ?thesis by (simp add: re_spaces_Cons)
  qed
qed

lemma strip_comment_before:
  "list_all (\<lambda>c. \<not> is_line_terminator c) s \<Longrightarrow> strip_to_end re_comment s = before_comment s"
  by (induction s rule: before_comment.induct) (auto simp: re_comment_def)

lemma before_comment_no_terminator:
  "list_all (\<lambda>c. \<not> is_line_terminator c) s \<Longrightarrow> trimmed s = spec_trimmed s"
  by (simp add: trimmed_def spec_trimmed_def strip_spaces_dropWhile strip_comment_before)

lemma scan_left_here:
  "ch = 0 \<or> (ch \<le> length line \<and> \<not> is_word_char (line ! (ch - 1))) \<Longrightarrow> scan_left line ch = ch"
  by (cases ch) auto

lemma scan_right_here:
  "ch \<le> length line \<Longrightarrow> ch = length line \<or> \<not> is_word_char_right (line ! ch)
   \<Longrightarrow> scan_right line ch = ch"
  by (rule scan_right_halt) auto

text \<open>
  Claim C9. The resolver returns the absent result (no word, no span) exactly when the
  cursor offset exceeds the length of the trimmed line; the word alone, and the span alone,
  are absent in that case only. A cursor within the trimmed line whose left neighbour (if
  any) is outside \<open>[0-9a-zA-Z_]\<close> and whose right neighbour (if any) is outside
  \<open>[0-9a-zA-Z_']\<close> gives the empty word with the empty span at the cursor. The
  resolver is a total function without an error value. On a line without a line terminator
  the trimmed line is the text before the first \<open>--\<close>, without its trailing white
  space.
\<close>

theorem getWordAtCursor_absent_iff:
  "(getWordAtCursor lineText ln ch = (None, None) \<longleftrightarrow> length (trimmed lineText) < ch)
   \<and> (fst (getWordAtCursor lineText ln ch) = None \<longleftrightarrow> length (trimmed lineText) < ch)
   \<and> (snd (getWordAtCursor lineText ln ch) = None \<longleftrightarrow> length (trimmed lineText) < ch)
   \<and> (ch \<le> length (trimmed lineText)
        \<and> (ch = 0 \<or> \<not> is_word_char (trimmed lineText ! (ch - 1)))
        \<and> (ch = length (trimmed lineText) \<or> \<not> is_word_char_right (trimmed lineText ! ch))
      \<longrightarrow> getWordAtCursor lineText ln ch =
            (Some [], Some \<lparr>start_line = ln, start_character = ch,
                             end_line = ln, end_character = ch\<rparr>))
   \<and> (list_all (\<lambda>c. \<not> is_line_terminator c) lineText
      \<longrightarrow> trimmed lineText = spec_trimmed lineText)"
proof (intro conjI impI)
  show "getWordAtCursor lineText ln ch = (None, None) \<longleftrightarrow> length (trimmed lineText) < ch"
    by (simp add: getWordAtCursor_def Let_def)
  show "fst (getWordAtCursor lineText ln ch) = None \<longleftrightarrow> length (trimmed lineText) < ch"
    by (simp add: getWordAtCursor_def Let_def)
  show "snd (getWordAtCursor lineText ln ch) = None \<longleftrightarrow> length (trimmed lineText) < ch"
    by (simp add: getWordAtCursor_def Let_def)
next
  assume a: "ch \<le> length (trimmed lineText)
        \<and> (ch = 0 \<or> \<not> is_word_char (trimmed lineText ! (ch - 1)))
        \<and> (ch = length (trimmed lineText) \<or> \<not> is_word_char_right (trimmed lineText ! ch))"
  then have l: "scan_left (trimmed lineText) ch = ch"
    by (intro scan_left_here) blast
  from a have r: "scan_right (trimmed lineText) ch = ch"
    by (intro scan_right_here) blast+
  from a have "ch \<le> length (trimmed lineText)" by blast
  then show "getWordAtCursor lineText ln ch =
            (Some [], Some \<lparr>start_line = ln, start_character = ch,
                             end_line = ln, end_character = ch\<rparr>)"
    using getWordAtCursor_in_bounds [of ch lineText ln] by (simp add: l r substr_def)
next
  assume "list_all (\<lambda>c. \<not> is_line_terminator c) lineText"
  then show "trimmed lineText = spec_trimmed lineText"
    by (rule before_comment_no_terminator)
qed

theorem getWordAtCursor_absent_iff_witness:
  "getWordAtCursor ''play 70 -- comment'' 0 19 = (None, None)
   \<and> length (trimmed ''play 70 -- comment'') = 7
   \<and> getWordAtCursor ''play 70 -- comment'' 0 7 \<noteq> (None, None)
   \<and> getWordAtCursor ''a  b'' 0 2 =
        (Some [], Some \<lparr>start_line = 0, start_character = 2, end_line = 0, end_character = 2\<rparr>)
   \<and> trimmed ''play 70 -- comment'' = spec_trimmed ''play 70 -- comment''"
proof -
  have len: "length (trimmed ''play 70 -- comment'') = 7" by code_simp
  have len2: "trimmed ''a  b'' = ''a  b''" by code_simp
  have nt: "list_all (\<lambda>c. \<not> is_line_terminator c) ''play 70 -- comment''"
    by (simp add: is_line_terminator_def)
  have sp: "\<not> is_word_char (CHR '' '')" "\<not> is_word_char_right (CHR '' '')"
    by (simp_all add: is_word_char_def is_word_char_right_def)
  show ?thesis
    using getWordAtCursor_absent_iff [of "''play 70 -- comment''" 0 19]
      getWordAtCursor_absent_iff [of "''play 70 -- comment''" 0 7]
      getWordAtCursor_absent_iff [of "''a  b''" 0 2]
      len len2 nt sp
    by simp
qed

section \<open>The constructor and the formatter\<close>

lemma pname_default_editable [simp]: "pname (default_editable p) = pname p"
  by (simp add: default_editable_def)

text \<open>
  Claim C5. The detail levels are additive: for every description and either value of the
  signature flag, \<open>format\<close> gives a text at \<open>MINIMUM\<close>, at
  \<open>NO_EXAMPLES_NO_LINKS\<close> and at \<open>FULL\<close>, the first is a prefix of the second and
  the second a prefix of the third; at \<open>OFF\<close> the result is absent.
\<close>

theorem format_levels_additive:
  "format d OFF withCommand = None
   \<and> (\<exists>a b c. format d MINIMUM withCommand = Some a
        \<and> format d NO_EXAMPLES_NO_LINKS withCommand = Some b
        \<and> format d FULL withCommand = Some c
        \<and> prefix (md_value a) (md_value b) \<and> prefix (md_value b) (md_value c))"
  by (cases "examples d") (simp_all add: format_def Let_def appendMarkdown_def)

theorem format_levels_additive_witness:
  "format (new_SonicPiCommandDescription example_config) OFF True = None
   \<and> (\<exists>a b c. format (new_SonicPiCommandDescription example_config) MINIMUM True = Some a
        \<and> format (new_SonicPiCommandDescription example_config) NO_EXAMPLES_NO_LINKS True = Some b
        \<and> format (new_SonicPiCommandDescription example_config) FULL True = Some c
        \<and> prefix (md_value a) (md_value b) \<and> prefix (md_value b) (md_value c))
   \<and> format (new_SonicPiCommandDescription example_config) MINIMUM True =
        Some \<lparr>md_value = ''    play note amp'', isTrusted = True\<rparr>"
proof -
  have "format (new_SonicPiCommandDescription example_config) MINIMUM True =
        Some \<lparr>md_value = ''    play note amp'', isTrusted = True\<rparr>"
    by code_simp
  with format_levels_additive [of "new_SonicPiCommandDescription example_config" True]
  show ?thesis by blast
qed

lemma indexOf_from_range: "indexOf_from s t i = - 1 \<or> int i \<le> indexOf_from s t i"
  by (induction s arbitrary: i) (auto, force)

lemma indexOf_zero: "indexOf s t = 0 \<longleftrightarrow> take (length t) s = t"
proof (cases s)
  case Nil
  then show ?thesis by (auto simp: indexOf_def)
next
  case (Cons c cs)
  show ?thesis
  proof (cases "take (length t) (c # cs) = t")
    case True
    with Cons show ?thesis by (simp add: indexOf_def)
  next
    case False
    have "indexOf_from cs t (Suc 0) \<noteq> 0"
      using indexOf_from_range [of cs t "Suc 0"] by auto
    with False Cons show ?thesis by (simp add: indexOf_def)
  qed
qed

lemma indexOf_from_char: "indexOf_from s [c] i < 0 \<longleftrightarrow> c \<notin> set s"
  by (induction s arbitrary: i) auto

lemma indent_cmd_cases:
  "indent_cmd cmd = (if backtick \<in> set cmd \<and> take 4 cmd = ''    '' then cmd else ''    '' @ cmd)"
proof -
  have "length ''    '' = 4" by simp
  then have a: "indexOf cmd ''    '' = 0 \<longleftrightarrow> take 4 cmd = ''    ''"
    using indexOf_zero [of cmd "''    ''"] by (simp only:)
  have b: "indexOf cmd [backtick] < 0 \<longleftrightarrow> backtick \<notin> set cmd"
    using indexOf_from_char [of cmd backtick 0] by (simp add: indexOf_def)
  show ?thesis
    unfolding indent_cmd_def a b by auto
qed

text \<open>
  The branch of the constructor for an undefined signature (lines 71-78): the one
  signature block holds the synthesized text, the command, a space and the parameter names
  joined by single spaces, or the command followed by \<open> ?\<close> without a parameter
  list, indented by four spaces like every string signature. The class is not exported
  and its one caller, \<open>parseYamlDefinitions\<close>, always passes a signature array, so
  no command of the program takes this branch.
\<close>

lemma constructor_synthesized_signature:
  assumes "cfg_formattedCommand cfg = None"
    and "sig = (case cfg_parameters cfg of
                  None \<Rightarrow> cfg_command cfg @ '' ?''
                | Some ps \<Rightarrow> cfg_command cfg @ '' '' @ join '' '' (map pname ps))"
  shows "formattedCommand (new_SonicPiCommandDescription cfg) =
           [\<lparr>md_value = (if backtick \<in> set sig \<and> take 4 sig = ''    '' then sig
                          else ''    '' @ sig),
             isTrusted = True\<rparr>]"
proof -
  have "synthesized (cfg_command cfg) (cfg_parameters cfg) = sig"
    using assms(2) by (simp add: synthesized_def comp_def split: option.splits)
  with assms(1) show ?thesis
    by (simp add: new_SonicPiCommandDescription_def Let_def trusted_def new_MarkdownString_def
        indent_cmd_cases)
qed

lemma constructor_synthesized_signature_example:
  "cfg_formattedCommand example_config = None
   \<and> formattedCommand (new_SonicPiCommandDescription example_config) =
        [\<lparr>md_value = ''    play note amp'', isTrusted = True\<rparr>]
   \<and> formattedCommand (new_SonicPiCommandDescription (example_config\<lparr>cfg_parameters := None\<rparr>)) =
        [\<lparr>md_value = ''    play ?'', isTrusted = True\<rparr>]"
  using constructor_synthesized_signature [of example_config, OF _ refl]
    constructor_synthesized_signature [of "example_config\<lparr>cfg_parameters := None\<rparr>", OF _ refl]
  by (simp add: example_config_def example_parameters_def)

section \<open>Completion items\<close>

text \<open>
  Claim C8. Every completion item comes from one entry of the registry whose key is its
  label, and its insertion text is the command name of that entry followed directly by the
  names, joined by single spaces, of exactly the parameters whose editable flag is true.
  The insertion text is left unset only for a description without a parameter list, which
  the constructor never builds.
\<close>

theorem completion_insert_text:
  assumes "provideCompletionItems commandDescriptions lineText ln ch = Some items"
    and "item \<in> set items"
  shows "\<exists>key cdesc. (key, cdesc) \<in> set commandDescriptions \<and> label item = key
           \<and> (case parameters cdesc of
                 Some ps \<Rightarrow>
                   insertText item =
                     Some (command cdesc
                           @ join '' '' (map pname (filter (\<lambda>p. editable p = Some True) ps)))
               | None \<Rightarrow> insertText item = None)"
proof -
  from assms obtain w rng where
    items: "items = map (\<lambda>p. completion_item (fst p) (snd p) rng)
                      (filter (\<lambda>p. startsWith (fst p) w) commandDescriptions)"
    by (auto simp: provideCompletionItems_def split: prod.splits option.splits)
  with assms(2) obtain p where p: "p \<in> set commandDescriptions"
    and item: "item = completion_item (fst p) (snd p) rng"
    by auto
  have "label item = fst p"
    by (simp add: item completion_item_def split: option.splits)
  moreover have "case parameters (snd p) of
                 Some ps \<Rightarrow>
                   insertText item =
                     Some (command (snd p)
                           @ join '' '' (map pname (filter (\<lambda>p. editable p = Some True) ps)))
               | None \<Rightarrow> insertText item = None"
    by (simp add: item completion_item_def split: option.splits)
  ultimately show ?thesis using p by (intro exI [of _ "fst p"] exI [of _ "snd p"]) simp
qed

theorem completion_insert_text_witness:
  "provideCompletionItems example_registry ''pl'' 0 2 = Some [example_item]
   \<and> insertText example_item = Some ''playnote''
   \<and> (\<exists>key cdesc. (key, cdesc) \<in> set example_registry \<and> label example_item = key
        \<and> (case parameters cdesc of
              Some ps \<Rightarrow>
                insertText example_item =
                  Some (command cdesc
                        @ join '' '' (map pname (filter (\<lambda>p. editable p = Some True) ps)))
            | None \<Rightarrow> insertText example_item = None))"
proof -
  have p: "provideCompletionItems example_registry ''pl'' 0 2 = Some [example_item]"
    by code_simp
  have i: "example_item \<in> set [example_item]" by simp
  have t: "insertText example_item = Some ''playnote''" by (simp add: example_item_def)
  from completion_insert_text [OF p i] p t show ?thesis by blast
qed

lemma constructor_parameters:
  "\<exists>ps. parameters (new_SonicPiCommandDescription cfg) = Some ps"
  by (simp add: new_SonicPiCommandDescription_def Let_def)

section \<open>What the parser returns\<close>

lemma bind_res_Inr:
  "bind_res m f = Inr y \<longleftrightarrow> (\<exists>x. m = Inr x \<and> f x = Inr y)"
  by (cases m) (simp_all add: bind_res_def)

lemma map_res_Inr_all:
  "map_res f xs = Inr ys \<Longrightarrow> (\<And>x y. f x = Inr y \<Longrightarrow> Q y) \<Longrightarrow> list_all Q ys"
proof (induction xs arbitrary: ys)
  case Nil
  then show ?case by simp
next
  case (Cons x xs)
  from Cons.prems(1) obtain y zs where y: "f x = Inr y" and zs: "map_res f xs = Inr zs"
    and ys: "ys = y # zs"
    by (auto simp: bind_res_Inr)
  from Cons.IH [OF zs Cons.prems(2)] have "list_all Q zs" .
  with Cons.prems(2) [OF y] ys show ?case by simp
qed

lemma fold_res_invariant:
  "fold_res f xs s = Inr s' \<Longrightarrow> Q s \<Longrightarrow> (\<And>x a b. f x a = Inr b \<Longrightarrow> Q a \<Longrightarrow> Q b) \<Longrightarrow> Q s'"
proof (induction xs arbitrary: s)
  case Nil
  then show ?case by simp
next
  case (Cons x xs)
  from Cons.prems(1) obtain a where a: "f x s = Inr a" and r: "fold_res f xs a = Inr s'"
    by (auto simp: bind_res_Inr)
  from Cons.prems(3) [OF a Cons.prems(2)] have "Q a" .
  from Cons.IH [OF r this Cons.prems(3)] show ?case .
qed

lemma new_parameter_plain: "new_parameter e = Inr p \<Longrightarrow> plain_parameter p"
  by (cases e) (auto simp: new_parameter_def bind_res_Inr plain_parameter_def)

lemma set_formattedCommand_parameters [simp]:
  "d_parameters (set_formattedCommand v acc) = d_parameters acc"
  by (cases v) (simp_all add: set_formattedCommand_def)

lemma set_returns_parameters [simp]: "d_parameters (set_returns v acc) = d_parameters acc"
  by (cases v) (simp_all add: set_returns_def)

lemma set_help_parameters [simp]: "d_parameters (set_help v acc) = d_parameters acc"
  by (cases v) (simp_all add: set_help_def)

lemma set_examples_parameters [simp]: "d_parameters (set_examples v acc) = d_parameters acc"
proof (cases v)
  case (YSeq xs)
  then show ?thesis by (simp add: set_examples_def)
qed (simp_all add: set_examples_def)

lemma set_parameters_plain:
  assumes "set_parameters v acc = Inr acc'" and "plain_descriptor acc"
  shows "plain_descriptor acc'"
proof (cases "typeof v = ''object'' \<and> v \<noteq> YNull")
  case True
  with assms(1) have "bind_res (Object_entries v) (\<lambda>es.
             bind_res (map_res new_parameter es) (\<lambda>ps.
               Inr (acc\<lparr>d_parameters := Some ps\<rparr>))) = Inr acc'"
    by (simp add: set_parameters_def)
  then obtain es ps where "map_res new_parameter es = Inr ps"
    and "acc' = acc\<lparr>d_parameters := Some ps\<rparr>"
    by (auto simp: bind_res_Inr)
  moreover from this(1) have "list_all plain_parameter ps"
    by (rule map_res_Inr_all) (rule new_parameter_plain)
  ultimately show ?thesis by (simp add: plain_descriptor_def)
next
  case False
  with assms show ?thesis by (simp add: set_parameters_def)
qed

lemma set_property_plain:
  assumes "set_property e acc = Inr acc'" and "plain_descriptor acc"
  shows "plain_descriptor acc'"
proof (cases e)
  case (Pair property v)
  from assms(1) have "acc' = set_formattedCommand v acc \<or> acc' = set_returns v acc
      \<or> acc' = set_help v acc \<or> set_parameters v acc = Inr acc'
      \<or> acc' = set_examples v acc \<or> acc' = acc"
    unfolding Pair set_property_def prod.case
    by (simp split: if_split_asm)
  with assms(2) show ?thesis
    by (auto simp: plain_descriptor_def dest: set_parameters_plain)
qed

lemma describe_plain:
  assumes "plain_descriptor acc"
  shows "\<exists>ps. parameters (describe cmd acc) = Some ps
           \<and> list_all (\<lambda>p. editable p = Some False \<and> ptype p = None) ps"
proof (cases "d_parameters acc")
  case None
  then show ?thesis
    by (simp add: describe_def new_SonicPiCommandDescription_def Let_def)
next
  case (Some qs)
  with assms have "list_all plain_parameter qs" by (simp add: plain_descriptor_def)
  then have "list_all (\<lambda>p. editable p = Some False \<and> ptype p = None)
               (map (\<lambda>p. p\<lparr>phelp := trusted (phelp p)\<rparr>) (map default_editable qs))"
    by (induction qs) (simp_all add: plain_parameter_def default_editable_def)
  with Some show ?thesis
    by (simp add: describe_def new_SonicPiCommandDescription_def Let_def)
qed

lemma parse_entry_plain:
  assumes "parse_entry e = Inr cdesc"
  shows "\<exists>ps. parameters cdesc = Some ps
           \<and> list_all (\<lambda>p. editable p = Some False \<and> ptype p = None) ps"
proof (cases e)
  case (Pair cmd v)
  have pe: "plain_descriptor empty_descriptor"
    by (simp add: plain_descriptor_def empty_descriptor_def)
  show ?thesis
  proof (cases "typeof v = ''object''")
    case True
    with assms Pair obtain props acc where
      f: "fold_res set_property props empty_descriptor = Inr acc"
      and d: "cdesc = describe cmd acc"
      by (auto simp: parse_entry_def bind_res_Inr)
    from f pe have "plain_descriptor acc"
      by (rule fold_res_invariant) (rule set_property_plain)
    with d show ?thesis using describe_plain by simp
  next
    case False
    with assms Pair obtain s where "cdesc = describe s empty_descriptor"
      by (auto simp: parse_entry_def split: yaml.splits)
    with pe show ?thesis using describe_plain by simp
  qed
qed

text \<open>
  Claim C10. Every description that \<open>parseYamlDefinitions\<close> returns, for any
  definition tree, has a parameter list in which every parameter has the editable flag
  \<open>false\<close> and no type. So the insertion text of its completion item is the bare
  command name, and every parameter is rendered by \<open>format\<close> as the name in
  backticks, two spaces and the help text, without a type tag.
\<close>

theorem parsed_parameters_plain:
  assumes "parseYamlDefinitions ydef = Inr cmds" and "cdesc \<in> set cmds"
  shows "\<exists>ps. parameters cdesc = Some ps
           \<and> (\<forall>p\<in>set ps. editable p = Some False \<and> ptype p = None
                 \<and> param_line p = [backtick] @ pname p @ [backtick] @ ''  '' @ md_value (phelp p))
           \<and> insertText (completion_item key cdesc rng) = Some (command cdesc)"
proof -
  from assms(1) obtain es where "map_res parse_entry es = Inr cmds"
    by (auto simp: parseYamlDefinitions_def bind_res_Inr)
  then have "list_all (\<lambda>d. \<exists>ps. parameters d = Some ps
           \<and> list_all (\<lambda>p. editable p = Some False \<and> ptype p = None) ps) cmds"
    by (rule map_res_Inr_all) (rule parse_entry_plain)
  with assms(2) obtain ps where ps: "parameters cdesc = Some ps"
    and pl: "list_all (\<lambda>p. editable p = Some False \<and> ptype p = None) ps"
    by (auto simp: list_all_iff)
  from pl have none: "filter (\<lambda>p. editable p = Some True) ps = []"
    by (auto simp: list_all_iff filter_empty_conv)
  have "insertText (completion_item key cdesc rng) = Some (command cdesc)"
    by (simp add: completion_item_def ps none)
  moreover from pl have "\<forall>p\<in>set ps. editable p = Some False \<and> ptype p = None
      \<and> param_line p = [backtick] @ pname p @ [backtick] @ ''  '' @ md_value (phelp p)"
    by (auto simp: list_all_iff param_line_def)
  ultimately show ?thesis using ps by simp
qed

theorem parsed_parameters_plain_witness:
  "parseYamlDefinitions example_ydef = Inr [example_parsed]
   \<and> (\<exists>ps. parameters example_parsed = Some ps
        \<and> (\<forall>p\<in>set ps. editable p = Some False \<and> ptype p = None
              \<and> param_line p = [backtick] @ pname p @ [backtick] @ ''  '' @ md_value (phelp p))
        \<and> insertText (completion_item ''play'' example_parsed (new_Range 0 0 0 2)) = Some ''play'')"
proof -
  have p: "parseYamlDefinitions example_ydef = Inr [example_parsed]" by code_simp
  have m: "example_parsed \<in> set [example_parsed]" by simp
  have c: "command example_parsed = ''play''" by (simp add: example_parsed_def)
  from parsed_parameters_plain [OF p m, of "''play''" "new_Range 0 0 0 2"] p c
  show ?thesis by simp
qed

lemma describe_signature:
  "formattedCommand (describe cmd acc) =
     map (\<lambda>s. \<lparr>md_value = indent_cmd s, isTrusted = True\<rparr>) (d_formattedCommand acc)"
  by (simp add: describe_def new_SonicPiCommandDescription_def Let_def trusted_def
      new_MarkdownString_def comp_def)

lemma describe_examples: "examples (describe cmd acc) = Some []"
  by (simp add: describe_def new_SonicPiCommandDescription_def Let_def)

lemma set_parameters_formattedCommand:
  "set_parameters v acc = Inr acc' \<Longrightarrow> d_formattedCommand acc' = d_formattedCommand acc"
  by (auto simp: set_parameters_def bind_res_Inr split: if_split_asm)

lemma set_returns_formattedCommand [simp]:
  "d_formattedCommand (set_returns v acc) = d_formattedCommand acc"
  by (cases v) (simp_all add: set_returns_def)

lemma set_help_formattedCommand [simp]:
  "d_formattedCommand (set_help v acc) = d_formattedCommand acc"
  by (cases v) (simp_all add: set_help_def)

lemma set_examples_formattedCommand [simp]:
  "d_formattedCommand (set_examples v acc) = d_formattedCommand acc"
proof (cases v)
  case (YSeq xs)
  then show ?thesis by (simp add: set_examples_def)
qed (simp_all add: set_examples_def)

lemma set_property_formattedCommand:
  assumes "set_property (property, v) acc = Inr acc'"
    and "property \<noteq> ''cmd''" and "property \<noteq> ''formattedCommand''"
  shows "d_formattedCommand acc' = d_formattedCommand acc"
proof -
  from assms have "acc' = set_returns v acc
      \<or> acc' = set_help v acc \<or> set_parameters v acc = Inr acc'
      \<or> acc' = set_examples v acc \<or> acc' = acc"
    unfolding set_property_def prod.case
    by (simp split: if_split_asm)
  then show ?thesis
    by (auto dest: set_parameters_formattedCommand)
qed

lemma fold_res_formattedCommand:
  "fold_res set_property props acc = Inr acc' \<Longrightarrow> ''cmd'' \<notin> set (map fst props)
   \<Longrightarrow> ''formattedCommand'' \<notin> set (map fst props)
   \<Longrightarrow> d_formattedCommand acc' = d_formattedCommand acc"
proof (induction props arbitrary: acc)
  case Nil
  then show ?case by simp
next
  case (Cons e props)
  obtain property v where e: "e = (property, v)" by (cases e)
  from Cons.prems(1) obtain a where a: "set_property (property, v) acc = Inr a"
    and r: "fold_res set_property props a = Inr acc'"
    by (auto simp: bind_res_Inr e)
  from Cons.prems(2,3) e have "property \<noteq> ''cmd''" "property \<noteq> ''formattedCommand''"
    by auto
  with a have "d_formattedCommand a = d_formattedCommand acc"
    by (rule set_property_formattedCommand)
  moreover from Cons.prems(2,3) have "d_formattedCommand acc' = d_formattedCommand a"
    by (intro Cons.IH [OF r]) auto
  ultimately show ?case by simp
qed

text \<open>
  Claim C1 does not hold of the code. The constructor synthesizes a signature only when
  none is passed; \<open>parseYamlDefinitions\<close> starts from an empty array of signature
  lines and always passes it. So every descriptor mapping without a \<open>cmd\<close> or
  \<open>formattedCommand\<close> property is parsed to a description without any signature
  block, and \<open>format(FULL, true)\<close> renders an empty signature.
\<close>

theorem parse_entry_no_signature:
  assumes "parse_entry (cmd, YMap props) = Inr cdesc"
    and "''cmd'' \<notin> set (map fst props)" and "''formattedCommand'' \<notin> set (map fst props)"
  shows "formattedCommand cdesc = [] \<and> signature_text cdesc True = []"
proof -
  from assms(1) obtain acc where f: "fold_res set_property props empty_descriptor = Inr acc"
    and d: "cdesc = describe cmd acc"
    by (auto simp: parse_entry_def bind_res_Inr)
  from f assms(2,3) have "d_formattedCommand acc = d_formattedCommand empty_descriptor"
    by (rule fold_res_formattedCommand)
  then have "formattedCommand cdesc = []"
    by (simp add: d describe_signature empty_descriptor_def)
  then show ?thesis by (simp add: signature_text_def)
qed

theorem parse_entry_no_signature_witness:
  "parseYamlDefinitions ydef_doc_only = Inr [parsed_doc_only]
   \<and> parse_entry (''play'', YMap [(''doc'', YStr ''Plays a note'')]) = Inr parsed_doc_only
   \<and> formattedCommand parsed_doc_only = []
   \<and> signature_text parsed_doc_only True = []
   \<and> format parsed_doc_only FULL True = Some \<lparr>md_value = ''Plays a note'', isTrusted = True\<rparr>"
proof -
  have p: "parse_entry (''play'', YMap [(''doc'', YStr ''Plays a note'')]) = Inr parsed_doc_only"
    by code_simp
  have q: "parseYamlDefinitions ydef_doc_only = Inr [parsed_doc_only]" by code_simp
  have r: "format parsed_doc_only FULL True = Some \<lparr>md_value = ''Plays a note'', isTrusted = True\<rparr>"
    by code_simp
  from parse_entry_no_signature [OF p] p q r show ?thesis by simp
qed

lemma parse_entry_examples: "parse_entry e = Inr cdesc \<Longrightarrow> examples cdesc = Some []"
  by (cases e) (auto simp: parse_entry_def bind_res_Inr describe_examples
      split: if_split_asm yaml.splits)

lemma command_describe: "command (describe cmd acc) = cmd"
  by (simp add: describe_def new_SonicPiCommandDescription_def Let_def)

text \<open>
  Claim C4 does not hold of the code. A command is constructed by
  \<open>parseYamlDefinitions\<close> only, which passes the signature lines it has collected,
  the empty array when the descriptor supplies none; the constructor synthesizes a
  signature only for an undefined one. So a descriptor mapping without a \<open>cmd\<close> or
  \<open>formattedCommand\<close> property gives a command without any signature text: neither
  the command followed by its parameter names, nor the command followed by \<open> ?\<close>.
\<close>

theorem parsed_signature_not_synthesized:
  assumes "parse_entry (cmd, YMap props) = Inr cdesc"
    and "''cmd'' \<notin> set (map fst props)" and "''formattedCommand'' \<notin> set (map fst props)"
  shows "\<exists>ps. command cdesc = cmd \<and> parameters cdesc = Some ps
           \<and> map md_value (formattedCommand cdesc) = []
           \<and> map md_value (formattedCommand cdesc)
                \<noteq> [cmd @ '' '' @ join '' '' (map pname ps)]
           \<and> map md_value (formattedCommand cdesc) \<noteq> [cmd @ '' ?'']"
proof -
  from assms(1) obtain acc where f: "fold_res set_property props empty_descriptor = Inr acc"
    and d: "cdesc = describe cmd acc"
    by (auto simp: parse_entry_def bind_res_Inr)
  from f assms(2,3) have "d_formattedCommand acc = d_formattedCommand empty_descriptor"
    by (rule fold_res_formattedCommand)
  then have e: "formattedCommand cdesc = []"
    by (simp add: d describe_signature empty_descriptor_def)
  from parse_entry_plain [OF assms(1)] obtain ps where "parameters cdesc = Some ps" by blast
  with e d show ?thesis by (simp add: command_describe)
qed

theorem parsed_signature_not_synthesized_witness:
  "parse_entry (''play'', YMap [(''params'', YMap [(''note'', YStr ''pitch''), (''amp'', YNum ''1'')])])
     = Inr example_parsed
   \<and> map md_value (formattedCommand example_parsed) = []
   \<and> map md_value (formattedCommand example_parsed) \<noteq> [''play note amp'']
   \<and> parse_entry (''play'', YMap []) =
        Inr \<lparr>command = ''play'', formattedCommand = [], parameters = Some [], returns = None,
             chelp = None, examples = Some []\<rparr>
   \<and> (\<exists>ps. parameters example_parsed = Some ps
        \<and> map md_value (formattedCommand example_parsed)
             \<noteq> [''play'' @ '' '' @ join '' '' (map pname ps)])"
proof -
  have p: "parse_entry (''play'',
       YMap [(''params'', YMap [(''note'', YStr ''pitch''), (''amp'', YNum ''1'')])])
     = Inr example_parsed"
    by code_simp
  have q: "parse_entry (''play'', YMap []) =
        Inr \<lparr>command = ''play'', formattedCommand = [], parameters = Some [], returns = None,
             chelp = None, examples = Some []\<rparr>"
    by code_simp
  from parsed_signature_not_synthesized [OF p] p q show ?thesis by auto
qed

text \<open>
  Claim C2 does not hold of the code. The parser collects the strings of an
  \<open>example\<close> or \<open>examples\<close> property, but the constructor call on line 341
  leaves them out: every description that \<open>parseYamlDefinitions\<close> returns has the
  empty sequence of examples.
\<close>

theorem parsed_examples_dropped:
  assumes "parseYamlDefinitions ydef = Inr cmds" and "cdesc \<in> set cmds"
  shows "examples cdesc = Some []"
proof -
  from assms(1) obtain es where "map_res parse_entry es = Inr cmds"
    by (auto simp: parseYamlDefinitions_def bind_res_Inr)
  then have "list_all (\<lambda>d. examples d = Some []) cmds"
    by (rule map_res_Inr_all) (rule parse_entry_examples)
  with assms(2) show ?thesis by (simp add: list_all_iff)
qed

theorem parsed_examples_dropped_witness:
  "parseYamlDefinitions ydef_examples = Inr [parsed_examples]
   \<and> examples parsed_examples = Some []
   \<and> format parsed_examples FULL True = Some \<lparr>md_value = ''    play note'', isTrusted = True\<rparr>"
proof -
  have p: "parseYamlDefinitions ydef_examples = Inr [parsed_examples]" by code_simp
  have m: "parsed_examples \<in> set [parsed_examples]" by simp
  have r: "format parsed_examples FULL True = Some \<lparr>md_value = ''    play note'', isTrusted = True\<rparr>"
    by code_simp
  from parsed_examples_dropped [OF p m] p r show ?thesis by simp
qed

text \<open>A mapping with an own property \<open>toString\<close> as the value of a parameter makes
  the coercion to a string, and so the parse, throw.\<close>

lemma parse_can_throw:
  "parseYamlDefinitions
     (YMap [(''play'', YMap [(''params'', YMap [(''note'', YMap [(''toString'', YStr ''x'')])])])])
   = Inl TypeError"
  by code_simp

section \<open>Separators in the formatted text\<close>

text \<open>
  Claim C3 does not hold of the code. The help section is preceded by a separator only
  when text precedes it; the parameter section (and the examples section) always starts
  with the separator. A description with parameters, without help and with an empty or
  excluded signature is rendered with the separator first.
\<close>

theorem parameters_with_leading_separator:
  assumes "parameters d = Some ps" and "ps \<noteq> []" and "chelp d = None"
    and "signature_text d withCommand = []"
  shows "format d NO_EXAMPLES_NO_LINKS withCommand =
           Some \<lparr>md_value = hline @ join (''    '' @ [CR, LF]) (map param_line ps) @ returns_text d,
                 isTrusted = True\<rparr>"
  using assms
  by (simp add: format_def Let_def appendMarkdown_def help_text_def parameters_text_def)

theorem parameters_with_leading_separator_witness:
  "parameters example_parsed = Some
        [\<lparr>pname = ''note'', phelp = \<lparr>md_value = ''pitch'', isTrusted = True\<rparr>,
          editable = Some False, ptype = None\<rparr>,
         \<lparr>pname = ''amp'', phelp = \<lparr>md_value = ''1'', isTrusted = True\<rparr>,
          editable = Some False, ptype = None\<rparr>]
   \<and> chelp example_parsed = None
   \<and> signature_text example_parsed True = []
   \<and> parseYamlDefinitions example_ydef = Inr [example_parsed]
   \<and> format example_parsed NO_EXAMPLES_NO_LINKS True =
        Some \<lparr>md_value = hline @ [backtick] @ ''note'' @ [backtick] @ ''  pitch    '' @ [CR, LF]
                     @ [backtick] @ ''amp'' @ [backtick] @ ''  1'',
              isTrusted = True\<rparr>"
proof -
  have a: "parameters example_parsed = Some
        [\<lparr>pname = ''note'', phelp = \<lparr>md_value = ''pitch'', isTrusted = True\<rparr>,
          editable = Some False, ptype = None\<rparr>,
         \<lparr>pname = ''amp'', phelp = \<lparr>md_value = ''1'', isTrusted = True\<rparr>,
          editable = Some False, ptype = None\<rparr>]"
    by (simp add: example_parsed_def)
  have b: "chelp example_parsed = None" by (simp add: example_parsed_def)
  have c: "signature_text example_parsed True = []" by code_simp
  have p: "parseYamlDefinitions example_ydef = Inr [example_parsed]" by code_simp
  have r: "returns_text example_parsed = []" by code_simp
  from parameters_with_leading_separator [OF a _ b c] a b c p r
  show ?thesis by (simp add: param_line_def)
qed

text \<open>The examples section alone, and a help text that is the empty string.\<close>

lemma examples_with_leading_separator:
  assumes "examples d = Some es" and "es \<noteq> []" and "chelp d = None"
    and "parameters d = Some []" and "returns d = None"
  shows "format d FULL False =
           Some \<lparr>md_value = hline @ ''Examples:'' @ [CR, LF, CR, LF]
                             @ join (''    '' @ [CR, LF]) (map md_value es),
                 isTrusted = True\<rparr>"
  using assms
  by (simp add: format_def Let_def appendMarkdown_def help_text_def parameters_text_def
      returns_text_def examples_text_def signature_text_def)

lemma empty_help_with_trailing_separator:
  assumes "chelp d = Some \<lparr>md_value = [], isTrusted = True\<rparr>" and "parameters d = Some []"
    and "returns d = None" and "signature_text d True \<noteq> []"
  shows "format d NO_EXAMPLES_NO_LINKS True =
           Some \<lparr>md_value = signature_text d True @ hline, isTrusted = True\<rparr>"
  using assms
  by (simp add: format_def Let_def appendMarkdown_def help_text_def parameters_text_def
      returns_text_def)

section \<open>Reloading the registry\<close>

text \<open>
  The keys after a reload, for any registry and any parse pass: the commands of the pass
  other than \<open>__proto__\<close>, and the old keys that are names of
  \<open>Object.prototype\<close>. A command of the pass is bound to the description parsed last
  under its name, and the keys stay distinct.
\<close>

lemma keys_obj_insert: "set (map fst (obj_insert k v ob)) = insert k (set (map fst ob))"
  by (induction ob) auto

lemma keys_replace: "map fst (map (\<lambda>p. if fst p = k then (k, v) else p) ob) = map fst ob"
  by (induction ob) auto

lemma map_of_replace:
  "k \<in> set (map fst ob) \<Longrightarrow>
   map_of (map (\<lambda>p. if fst p = k then (k, v) else p) ob) = (map_of ob)(k \<mapsto> v)"
proof (induction ob)
  case Nil
  then show ?case by simp
next
  case (Cons p ob)
  show ?case
  proof (cases "k \<in> set (map fst ob)")
    case True
    with Cons.IH show ?thesis by (cases p) (auto simp: fun_upd_twist)
  next
    case False
    then have "map (\<lambda>p. if fst p = k then (k, v) else p) ob = ob"
      by (induction ob) auto
    with Cons.prems False show ?thesis by (cases p) auto
  qed
qed

lemma map_of_obj_insert:
  "k \<notin> set (map fst ob) \<Longrightarrow> map_of (obj_insert k v ob) = (map_of ob)(k \<mapsto> v)"
proof (induction ob)
  case Nil
  then show ?case by simp
next
  case (Cons p ob)
  then show ?case by (cases p) (auto simp: fun_upd_twist)
qed

lemma map_of_obj_set:
  "k \<noteq> ''__proto__'' \<Longrightarrow> map_of (obj_set k v ob) = (map_of ob)(k \<mapsto> v)"
  by (simp add: obj_set_def map_of_replace map_of_obj_insert del: set_map)

lemma map_of_foldl_obj_set:
  "x \<noteq> ''__proto__'' \<Longrightarrow>
   map_of (foldl (\<lambda>r c. obj_set (command c) c r) ob cs) x =
     (case map_of (map (\<lambda>c. (command c, c)) (rev cs)) x of
        None \<Rightarrow> map_of ob x
      | Some c \<Rightarrow> Some c)"
proof (induction cs arbitrary: ob)
  case Nil
  then show ?case by simp
next
  case (Cons c cs)
  have step: "map_of (obj_set (command c) c ob) x =
      (if x = command c then Some c else map_of ob x)"
  proof (cases "command c = ''__proto__''")
    case True
    with Cons.prems show ?thesis by (auto simp: obj_set_def)
  next
    case False
    then show ?thesis by (simp add: map_of_obj_set)
  qed
  show ?case
    by (simp add: Cons.IH [OF Cons.prems] step map_add_def split: option.splits)
qed

lemma map_of_obj_delete:
  "map_of (obj_delete x ob) k = (if k = x then None else map_of ob k)"
  by (induction ob) (auto simp: obj_delete_def)

lemma map_of_foldl_delete:
  "map_of (foldl (\<lambda>r x. obj_delete x r) ob xs) k = (if k \<in> set xs then None else map_of ob k)"
  by (induction xs arbitrary: ob) (simp_all add: map_of_obj_delete)

lemma keys_obj_set:
  "set (map fst (obj_set k v ob)) =
     (if k = ''__proto__'' then set (map fst ob) else insert k (set (map fst ob)))"
proof (cases "k = ''__proto__''")
  case True
  then show ?thesis by (simp add: obj_set_def)
next
  case False
  show ?thesis
  proof (cases "k \<in> set (map fst ob)")
    case True
    with False show ?thesis
      by (simp only: obj_set_def keys_replace if_True if_False) auto
  next
    case notin: False
    with False show ?thesis
      by (simp only: obj_set_def keys_obj_insert if_False)
  qed
qed

lemma keys_foldl_obj_set:
  "set (map fst (foldl (\<lambda>r c. obj_set (f c) (g c) r) ob cs)) =
     set (map fst ob) \<union> (set (map f cs) - {''__proto__''})"
proof (induction cs arbitrary: ob)
  case Nil
  then show ?case by simp
next
  case (Cons c cs)
  show ?case
    by (simp only: foldl_Cons Cons.IH keys_obj_set list.map list.set) auto
qed

lemma keys_foldl_delete:
  "set (map fst (foldl (\<lambda>r x. obj_delete x r) ob xs)) = set (map fst ob) - set xs"
proof (induction xs arbitrary: ob)
  case Nil
  then show ?case by simp
next
  case (Cons x xs)
  have "set (map fst (obj_delete x ob)) = set (map fst ob) - {x}"
    by (auto simp: obj_delete_def)
  then show ?case by (simp only: foldl_Cons Cons.IH list.set) auto
qed

lemma newKeys_keys:
  "set (map fst (foldl (\<lambda>x y. obj_set y True x) [] (map command cmds))) =
     set (map command cmds) - {''__proto__''}"
  using keys_foldl_obj_set [where f = "\<lambda>y. y" and g = "\<lambda>y. True" and ob = "[]"
      and cs = "map command cmds"]
  by simp

lemma reload_keys:
  "set (map fst (reload reg cmds)) =
     (set (map command cmds) - {''__proto__''})
     \<union> (set (map fst reg) \<inter> set Object_prototype_names)"
proof -
  define registry where "registry = foldl (\<lambda>r cmd. obj_set (command cmd) cmd r) reg cmds"
  define newKeys where "newKeys = foldl (\<lambda>x y. obj_set y True x) [] (map command cmds)"
  have r: "set (map fst registry) = set (map fst reg) \<union> (set (map command cmds) - {''__proto__''})"
    unfolding registry_def
    using keys_foldl_obj_set [where f = command and g = "\<lambda>c. c" and ob = reg and cs = cmds]
    by simp
  have n: "set (map fst newKeys) = set (map command cmds) - {''__proto__''}"
    unfolding newKeys_def by (rule newKeys_keys)
  have "reload reg cmds = foldl (\<lambda>r x. obj_delete x r) registry
           (filter (typeof_undefined newKeys) (map fst registry))"
    by (simp add: reload_def registry_def newKeys_def Let_def)
  then have "set (map fst (reload reg cmds)) =
      set (map fst registry) - {x \<in> set (map fst registry). typeof_undefined newKeys x}"
    by (simp only: keys_foldl_delete set_filter)
  also have "\<dots> = (set (map command cmds) - {''__proto__''})
     \<union> (set (map fst reg) \<inter> set Object_prototype_names)"
    unfolding r typeof_undefined_def n by blast
  finally show ?thesis .
qed

lemma reload_keys_ordinary:
  assumes "set (map fst reg) \<inter> set Object_prototype_names = {}"
    and "''__proto__'' \<notin> set (map command cmds)"
  shows "set (map fst (reload reg cmds)) = set (map command cmds)"
  using assms reload_keys [of reg cmds] by auto

lemma reload_keys_ordinary_example:
  "set (map fst (reload [(''a'', da), (''b'', db)] [da\<lparr>command := ''a''\<rparr>])) = {''a''}"
  using reload_keys_ordinary [of "[(''a'', da), (''b'', db)]" "[da\<lparr>command := ''a''\<rparr>]"]
  by (simp add: Object_prototype_names_def)

lemma reload_lookup:
  assumes "k \<in> set (map command cmds)" and "k \<noteq> ''__proto__''"
  shows "map_of (reload reg cmds) k = map_of (map (\<lambda>c. (command c, c)) (rev cmds)) k"
proof -
  define registry where "registry = foldl (\<lambda>r cmd. obj_set (command cmd) cmd r) reg cmds"
  define newKeys where "newKeys = foldl (\<lambda>x y. obj_set y True x) [] (map command cmds)"
  have n: "set (map fst newKeys) = set (map command cmds) - {''__proto__''}"
    unfolding newKeys_def by (rule newKeys_keys)
  with assms have keep: "\<not> typeof_undefined newKeys k"
    by (simp add: typeof_undefined_def del: set_map)
  have "reload reg cmds = foldl (\<lambda>r x. obj_delete x r) registry
           (filter (typeof_undefined newKeys) (map fst registry))"
    by (simp add: reload_def registry_def newKeys_def Let_def)
  with keep have "map_of (reload reg cmds) k = map_of registry k"
    by (simp add: map_of_foldl_delete)
  moreover from assms(1) obtain c where
    "map_of (map (\<lambda>c. (command c, c)) (rev cmds)) k = Some c"
    by (cases "map_of (map (\<lambda>c. (command c, c)) (rev cmds)) k")
       (auto simp: map_of_eq_None_iff image_iff)
  ultimately show ?thesis
    unfolding registry_def using assms(2) by (simp add: map_of_foldl_obj_set)
qed

lemma distinct_obj_insert:
  "k \<notin> set (map fst ob) \<Longrightarrow> distinct (map fst ob) \<Longrightarrow> distinct (map fst (obj_insert k v ob))"
  by (induction ob) (auto simp: keys_obj_insert [simplified])

lemma distinct_obj_set:
  assumes "distinct (map fst ob)"
  shows "distinct (map fst (obj_set k v ob))"
proof (cases "k = ''__proto__''")
  case True
  with assms show ?thesis by (simp add: obj_set_def)
next
  case False
  show ?thesis
  proof (cases "k \<in> set (map fst ob)")
    case True
    with False assms show ?thesis
      by (simp only: obj_set_def keys_replace if_True if_False)
  next
    case notin: False
    then have "distinct (map fst (obj_insert k v ob))"
      using assms by (intro distinct_obj_insert)
    with False notin show ?thesis
      by (simp only: obj_set_def if_False)
  qed
qed

lemma distinct_foldl_obj_set:
  "distinct (map fst ob) \<Longrightarrow> distinct (map fst (foldl (\<lambda>r c. obj_set (f c) (g c) r) ob cs))"
  by (induction cs arbitrary: ob) (simp_all add: distinct_obj_set)

lemma distinct_foldl_delete:
  "distinct (map fst ob) \<Longrightarrow> distinct (map fst (foldl (\<lambda>r x. obj_delete x r) ob xs))"
  by (induction xs arbitrary: ob) (simp_all add: obj_delete_def distinct_map_filter)

lemma reload_distinct:
  "distinct (map fst reg) \<Longrightarrow> distinct (map fst (reload reg cmds))"
  unfolding reload_def Let_def
  by (intro distinct_foldl_delete distinct_foldl_obj_set [where g = "\<lambda>c. c"])

text \<open>
  Claim C7 does not hold of the code for a command named like a property of
  \<open>Object.prototype\<close>. The test \<open>typeof newKeys[x] === 'undefined'\<close> finds the
  inherited property, so a registered command \<open>toString\<close> survives a reload whose
  parse pass does not yield it; and the assignment to the key \<open>__proto__\<close> creates no
  entry, so such a command of the parse pass is not bound.
\<close>

theorem reload_keeps_inherited_names:
  "reload [(''toString'', d)] [] = [(''toString'', d)]
   \<and> map fst (init (init [] None (Some [(''synth.yaml'', ydef_toString)])) None (Some []))
       = [''toString'']
   \<and> parse_pass [] = []
   \<and> map command (parse_pass [(''synth.yaml'', ydef_proto)]) = [''__proto__'']
   \<and> init [] None (Some [(''synth.yaml'', ydef_proto)]) = []"
proof (intro conjI)
  show "reload [(''toString'', d)] [] = [(''toString'', d)]"
    by (simp add: reload_def typeof_undefined_def Object_prototype_names_def)
  show "map fst (init (init [] None (Some [(''synth.yaml'', ydef_toString)])) None (Some []))
       = [''toString'']"
    by code_simp
  show "parse_pass [] = []" by (simp add: parse_pass_def)
  show "map command (parse_pass [(''synth.yaml'', ydef_proto)]) = [''__proto__'']"
    by code_simp
  show "init [] None (Some [(''synth.yaml'', ydef_proto)]) = []"
    by code_simp
qed

end
